theory Spec2Isabelle
  imports Complex_Main
begin

section \<open>Black-Scholes prices and Greeks (greeks.py) and the path simulator (simulation.py)\<close>

text \<open>
  Numbers are modelled as mathematical reals: Python floats without rounding, without
  infinities and without NaN. What Python raises on ordinary float arguments is kept as
  an error value: \<open>math.log\<close> of a non-positive number and \<open>math.sqrt\<close> of a negative
  number raise ValueError ("math domain error"), and \<open>/\<close> by zero raises
  ZeroDivisionError. OverflowError (\<open>math.exp\<close> or \<open>**\<close> beyond the float range) has no
  counterpart over the reals and is not modelled.
\<close>

subsection \<open>Errors\<close>

datatype error =
    OptionTypeError       \<comment> \<open>ValueError("option_type must be 'call' or 'put'")\<close>
  | MathDomainError       \<comment> \<open>ValueError("math domain error") of math.log and math.sqrt\<close>
  | ZeroDivisionError     \<comment> \<open>float division by zero\<close>
  | SeedError             \<comment> \<open>ValueError of np.random.seed outside 0 .. 2**32 - 1\<close>
  | NumSamplesError       \<comment> \<open>ValueError of np.linspace on a negative number of samples\<close>
  | IndexError            \<comment> \<open>index 0 is out of bounds for an array of size 0\<close>
  | FloatSpecialValue     \<comment> \<open>no exception: the values are computed through inf or NaN\<close>

definition bind_err :: "error + 'a \<Rightarrow> ('a \<Rightarrow> error + 'b) \<Rightarrow> error + 'b" where
  "bind_err m f = (case m of Inl e \<Rightarrow> Inl e | Inr v \<Rightarrow> f v)"

definition py_div :: "real \<Rightarrow> real \<Rightarrow> error + real" where
  "py_div a b = (if b = 0 then Inl ZeroDivisionError else Inr (a / b))"

definition py_log :: "real \<Rightarrow> error + real" where
  "py_log x = (if x \<le> 0 then Inl MathDomainError else Inr (ln x))"

definition py_sqrt :: "real \<Rightarrow> error + real" where
  "py_sqrt x = (if x < 0 then Inl MathDomainError else Inr (sqrt x))"

subsection \<open>Case-insensitive option type\<close>

text \<open>
  \<open>str.lower\<close>, on a string given as its UTF-8 bytes: the letters A to Z are lowered
  and every other byte is kept. Python lowers other characters too, but none of them to
  a letter of "call" or "put", the only strings the result is compared with, so the
  comparisons come out as in Python.
\<close>

definition lower_char :: "char \<Rightarrow> char" where
  "lower_char c =
     (let n = (of_char c :: nat) in if 65 \<le> n \<and> n \<le> 90 then char_of (n + 32) else c)"

definition lower :: "string \<Rightarrow> string" where
  "lower s = map lower_char s"

subsection \<open>greeks.py\<close>

text \<open>
  \<open>scipy.stats.norm.cdf\<close> is a library function; every operation that calls it takes
  it as the parameter \<open>cdf\<close>.
\<close>

definition d_1 :: "real \<Rightarrow> real \<Rightarrow> real \<Rightarrow> real \<Rightarrow> real \<Rightarrow> error + real" where
  "d_1 S K T r sigma =
     bind_err (py_div S K) (\<lambda>q.
     bind_err (py_log q) (\<lambda>l.
     bind_err (py_sqrt T) (\<lambda>sT.
       py_div (l + (r + 0.5 * sigma\<^sup>2) * T) (sigma * sT))))"

definition d_2 :: "real \<Rightarrow> real \<Rightarrow> real \<Rightarrow> real \<Rightarrow> real \<Rightarrow> error + real" where
  "d_2 S K T r sigma =
     bind_err (d_1 S K T r sigma) (\<lambda>d1.
     bind_err (py_sqrt T) (\<lambda>sT.
       Inr (d1 - sigma * sT)))"

definition pdf :: "real \<Rightarrow> real" where
  "pdf x = (1.0 / sqrt (2 * pi)) * exp (- 0.5 * x * x)"

definition option_price ::
  "(real \<Rightarrow> real) \<Rightarrow> string \<Rightarrow> real \<Rightarrow> real \<Rightarrow> real \<Rightarrow> real \<Rightarrow> real \<Rightarrow> error + real" where
  "option_price cdf option_type S K T r sigma =
     (if T \<le> 0 then
        (if lower option_type = ''call'' then Inr (max (S - K) 0.0)
         else if lower option_type = ''put'' then Inr (max (K - S) 0.0)
         else Inl OptionTypeError)
      else
        bind_err (d_1 S K T r sigma) (\<lambda>d1.
        bind_err (d_2 S K T r sigma) (\<lambda>d2.
          if lower option_type = ''call'' then
            Inr (S * cdf d1 - K * exp (- r * T) * cdf d2)
          else if lower option_type = ''put'' then
            Inr (K * exp (- r * T) * cdf (- d2) - S * cdf (- d1))
          else Inl OptionTypeError)))"

definition delta ::
  "(real \<Rightarrow> real) \<Rightarrow> string \<Rightarrow> real \<Rightarrow> real \<Rightarrow> real \<Rightarrow> real \<Rightarrow> real \<Rightarrow> error + real" where
  "delta cdf option_type S K T r sigma =
     (if T \<le> 0 then
        (if lower option_type = ''call'' then Inr (if S > K then 1.0 else 0.0)
         else Inr (if S < K then - 1.0 else 0.0))
      else
        bind_err (d_1 S K T r sigma) (\<lambda>d1.
          if lower option_type = ''call'' then Inr (cdf d1)
          else if lower option_type = ''put'' then Inr (cdf d1 - 1)
          else Inl OptionTypeError))"

definition gamma :: "real \<Rightarrow> real \<Rightarrow> real \<Rightarrow> real \<Rightarrow> real \<Rightarrow> error + real" where
  "gamma S K T r sigma =
     (if T \<le> 0 then Inr 0.0
      else
        bind_err (d_1 S K T r sigma) (\<lambda>d1.
        bind_err (py_sqrt T) (\<lambda>sT.
          py_div (pdf d1) (S * sigma * sT))))"

definition vega :: "real \<Rightarrow> real \<Rightarrow> real \<Rightarrow> real \<Rightarrow> real \<Rightarrow> error + real" where
  "vega S K T r sigma =
     (if T \<le> 0 then Inr 0.0
      else
        bind_err (d_1 S K T r sigma) (\<lambda>d1.
        bind_err (py_sqrt T) (\<lambda>sT.
          Inr (S * pdf d1 * sT))))"

definition theta ::
  "(real \<Rightarrow> real) \<Rightarrow> string \<Rightarrow> real \<Rightarrow> real \<Rightarrow> real \<Rightarrow> real \<Rightarrow> real \<Rightarrow> error + real" where
  "theta cdf option_type S K T r sigma =
     (if T \<le> 0 then Inr 0.0
      else
        bind_err (d_1 S K T r sigma) (\<lambda>d1.
        bind_err (d_2 S K T r sigma) (\<lambda>d2.
        bind_err (py_sqrt T) (\<lambda>sT.
        bind_err (py_div (- (S * pdf d1 * sigma)) (2 * sT)) (\<lambda>term1.
          if lower option_type = ''call'' then
            Inr (term1 + (- r * K * exp (- r * T) * cdf d2))
          else if lower option_type = ''put'' then
            Inr (term1 + r * K * exp (- r * T) * cdf (- d2))
          else Inl OptionTypeError)))))"

definition rho ::
  "(real \<Rightarrow> real) \<Rightarrow> string \<Rightarrow> real \<Rightarrow> real \<Rightarrow> real \<Rightarrow> real \<Rightarrow> real \<Rightarrow> error + real" where
  "rho cdf option_type S K T r sigma =
     (if T \<le> 0 then Inr 0.0
      else
        bind_err (d_2 S K T r sigma) (\<lambda>d2.
          if lower option_type = ''call'' then
            Inr (K * T * exp (- r * T) * cdf d2)
          else if lower option_type = ''put'' then
            Inr (- K * T * exp (- r * T) * cdf (- d2))
          else Inl OptionTypeError))"

subsection \<open>The standard normal distribution function\<close>

text \<open>
  The function that \<open>norm.cdf\<close> approximates, as its power series
  \<open>1/2 + (1 / sqrt (2 pi)) * (\<Sum>n. (-1)^n x^(2n+1) / (2^n n! (2n+1)))\<close>. It instantiates the
  parameter \<open>cdf\<close> in closed statements.
\<close>

definition cdf_term :: "real \<Rightarrow> nat \<Rightarrow> real" where
  "cdf_term x n = (- 1) ^ n * x ^ (2 * n + 1) / (2 ^ n * fact n * real (2 * n + 1))"

definition norm_cdf :: "real \<Rightarrow> real" where
  "norm_cdf x = 0.5 + (1.0 / sqrt (2 * pi)) * (\<Sum>n. cdf_term x n)"

text \<open>
  Three auxiliary notions for the proof that \<open>norm_cdf\<close> has its values in \<open>[0, 1]\<close>:
  the coefficients of the series as a power series in \<open>x\<^sup>2\<close>, the antiderivative of
  \<open>cos ^ m\<close> that vanishes at 0, and its value at \<open>pi / 2\<close>.
\<close>

definition gauss_coeff :: "nat \<Rightarrow> real" where
  "gauss_coeff n = (- 1) ^ n / (2 ^ n * fact n * real (2 * n + 1))"

fun cos_int :: "nat \<Rightarrow> real \<Rightarrow> real" where
  "cos_int 0 t = t"
| "cos_int (Suc 0) t = sin t"
| "cos_int (Suc (Suc m)) t =
     cos t ^ Suc m * sin t / real (m + 2) + real (m + 1) / real (m + 2) * cos_int m t"

definition wallis :: "nat \<Rightarrow> real" where
  "wallis m = cos_int m (pi / 2)"

subsection \<open>simulation.py\<close>

text \<open>
  numpy's global generator is explicit state of type \<open>'g\<close>: \<open>seed_fn\<close> is the state that
  \<open>np.random.seed\<close> installs and \<open>randn\<close> draws one standard normal number and advances
  the state. Both are parameters, like \<open>cdf\<close>. \<open>simulate_path\<close> takes the state before
  the call and returns the state after it beside its result.
\<close>

definition seed_rng :: "(int \<Rightarrow> 'g) \<Rightarrow> int option \<Rightarrow> 'g \<Rightarrow> error + 'g" where
  "seed_rng seed_fn seed g =
     (case seed of
        None \<Rightarrow> Inr g
      | Some s \<Rightarrow> if 0 \<le> s \<and> s < 2 ^ 32 then Inr (seed_fn s) else Inl SeedError)"

text \<open>
  \<open>np.linspace(start, stop, num)\<close> with the default \<open>endpoint=True\<close>: \<open>num\<close> points,
  point \<open>i\<close> at \<open>start + i * ((stop - start) / (num - 1))\<close>, the last one set to \<open>stop\<close>
  itself when \<open>num > 1\<close>; a single point is \<open>start\<close>.
\<close>

definition linspace :: "real \<Rightarrow> real \<Rightarrow> int \<Rightarrow> error + real list" where
  "linspace start stop num =
     (if num < 0 then Inl NumSamplesError
      else Inr (map (\<lambda>i. if num > 1 \<and> int i = num - 1 then stop
                         else start + real i * ((stop - start) / real_of_int (num - 1)))
                    [0 ..< nat num]))"

text \<open>
  The first loop: \<open>n\<close> further spots after the spot \<open>s\<close>, one draw each.
\<close>

fun simulate_S ::
  "('g \<Rightarrow> real \<times> 'g) \<Rightarrow> real \<Rightarrow> real \<Rightarrow> real \<Rightarrow> nat \<Rightarrow> real \<Rightarrow> 'g \<Rightarrow> real list \<times> 'g" where
  "simulate_S randn r sigma dt 0 s g = ([], g)"
| "simulate_S randn r sigma dt (Suc n) s g =
     (let (z, g') = randn g;
          s' = s * exp ((r - 0.5 * sigma\<^sup>2) * dt + sigma * sqrt dt * z);
          (rest, g'') = simulate_S randn r sigma dt n s' g'
      in (s' # rest, g''))"

record greeks_bundle =
  b_price :: real
  b_delta :: real
  b_gamma :: real
  b_vega :: real
  b_theta :: real
  b_rho :: real

text \<open>
  The body of the second loop: the six Core operations in the order of the source; the
  first one that raises ends the call.
\<close>

definition greeks_at ::
  "(real \<Rightarrow> real) \<Rightarrow> string \<Rightarrow> real \<Rightarrow> real \<Rightarrow> real \<Rightarrow> real \<Rightarrow> real \<Rightarrow> error + greeks_bundle" where
  "greeks_at cdf option_type s K T_rem r sigma =
     bind_err (option_price cdf option_type s K T_rem r sigma) (\<lambda>p.
     bind_err (delta cdf option_type s K T_rem r sigma) (\<lambda>d.
     bind_err (gamma s K T_rem r sigma) (\<lambda>ga.
     bind_err (vega s K T_rem r sigma) (\<lambda>v.
     bind_err (theta cdf option_type s K T_rem r sigma) (\<lambda>th.
     bind_err (rho cdf option_type s K T_rem r sigma) (\<lambda>rh.
       Inr \<lparr>b_price = p, b_delta = d, b_gamma = ga, b_vega = v, b_theta = th, b_rho = rh\<rparr>))))))"

fun greeks_loop ::
  "(real \<Rightarrow> real) \<Rightarrow> string \<Rightarrow> real \<Rightarrow> real \<Rightarrow> real \<Rightarrow> real \<Rightarrow> (real \<times> real) list
     \<Rightarrow> error + greeks_bundle list" where
  "greeks_loop cdf option_type K T r sigma [] = Inr []"
| "greeks_loop cdf option_type K T r sigma ((t, s) # rest) =
     bind_err (greeks_at cdf option_type s K (max (T - t) 0) r sigma) (\<lambda>b.
     bind_err (greeks_loop cdf option_type K T r sigma rest) (\<lambda>bs.
       Inr (b # bs)))"

record path_result =
  times_arr :: "real list"
  S_arr :: "real list"
  price_arr :: "real list"
  delta_arr :: "real list"
  gamma_arr :: "real list"
  vega_arr :: "real list"
  theta_arr :: "real list"
  rho_arr :: "real list"

text \<open>
  \<open>simulate_path\<close>. The parameters are Python numbers, the times and the spots are
  numpy floats, and numpy floats do not raise on a division by zero or a root of a
  negative number: they give inf or NaN with a warning. Three cases therefore leave the
  reals: \<open>dt < 0\<close>, where \<open>np.sqrt(dt)\<close> is NaN; \<open>K = 0\<close> with \<open>T > 0\<close>, where
  \<open>S[0] / K\<close> divides a numpy float by zero; and \<open>sigma = 0\<close> with \<open>T > 0\<close> and
  \<open>S0 / K > 0\<close>, where the numerator of \<open>d_1\<close> is a numpy float divided by zero. In
  these cases the first pass of the second loop still raises what Python raises on such
  values: the math domain error of \<open>math.log\<close> on \<open>S[0] / K = -inf\<close> (\<open>K = 0\<close> and
  \<open>S0 < 0\<close>), and otherwise the option-type error of \<open>option_price\<close> for an invalid
  option type. Where nothing is raised the values are computed through inf or NaN, and
  the result is marked \<open>FloatSpecialValue\<close> instead of being given a value.
\<close>

definition simulate_path ::
  "('g \<Rightarrow> real \<times> 'g) \<Rightarrow> (int \<Rightarrow> 'g) \<Rightarrow> (real \<Rightarrow> real) \<Rightarrow>
     real \<Rightarrow> real \<Rightarrow> real \<Rightarrow> real \<Rightarrow> real \<Rightarrow> string \<Rightarrow> int \<Rightarrow> int option \<Rightarrow> 'g
     \<Rightarrow> (error + path_result) \<times> 'g" where
  "simulate_path randn seed_fn cdf S0 K T r sigma option_type steps seed g0 =
     (case seed_rng seed_fn seed g0 of
        Inl e \<Rightarrow> (Inl e, g0)
      | Inr g1 \<Rightarrow>
     (case py_div T (real_of_int steps) of
        Inl e \<Rightarrow> (Inl e, g1)
      | Inr dt \<Rightarrow>
     (case linspace 0 T (steps + 1) of
        Inl e \<Rightarrow> (Inl e, g1)
      | Inr tms \<Rightarrow>
        if steps + 1 = 0 then (Inl IndexError, g1)
        else
          let (path, g2) = simulate_S randn r sigma dt (nat steps) S0 g1;
              S = S0 # path
          in if dt < 0 \<or> (T > 0 \<and> (K = 0 \<or> (sigma = 0 \<and> S0 / K > 0)))
             then
               (if T > 0 \<and> K = 0 \<and> S0 < 0 then (Inl MathDomainError, g2)
                else if lower option_type \<noteq> ''call'' \<and> lower option_type \<noteq> ''put''
                then (Inl OptionTypeError, g2)
                else (Inl FloatSpecialValue, g2))
             else
               (case greeks_loop cdf option_type K T r sigma (zip tms S) of
                  Inl e \<Rightarrow> (Inl e, g2)
                | Inr bs \<Rightarrow>
                    (Inr \<lparr>times_arr = tms, S_arr = S,
                          price_arr = map b_price bs, delta_arr = map b_delta bs,
                          gamma_arr = map b_gamma bs, vega_arr = map b_vega bs,
                          theta_arr = map b_theta bs, rho_arr = map b_rho bs\<rparr>, g2)))))"

text \<open>
  A small deterministic generator on \<open>nat\<close> states. It stands in for numpy's generator
  where a closed statement needs one.
\<close>

definition lcg_seed :: "int \<Rightarrow> nat" where
  "lcg_seed s = nat s mod 17"

definition lcg_randn :: "nat \<Rightarrow> real \<times> nat" where
  "lcg_randn g = (real (g mod 5) - 2, (3 * g + 1) mod 17)"

section \<open>Properties\<close>

lemma lower_literals:
  "lower ''call'' = ''call''" "lower ''CALL'' = ''call''" "lower ''Call'' = ''call''"
  "lower ''put'' = ''put''" "lower ''PUT'' = ''put''" "lower ''Put'' = ''put''"
  "lower ''straddle'' = ''straddle''"
  by code_simp+

subsection \<open>The standard normal distribution function\<close>

text \<open>
  The series converges everywhere, is odd, and its derivative is \<open>exp (- x\<^sup>2 / 2)\<close>.
\<close>

lemma summable_gauss_coeff: "summable (\<lambda>n. gauss_coeff n * y ^ n)"
proof (rule summable_comparison_test)
  show "summable (\<lambda>n. (\<bar>y\<bar> / 2) ^ n /\<^sub>R fact n)"
    by (rule summable_exp_generic)
  show "\<exists>N. \<forall>n\<ge>N. norm (gauss_coeff n * y ^ n) \<le> (\<bar>y\<bar> / 2) ^ n /\<^sub>R fact n"
  proof (intro exI[of _ 0] allI impI)
    fix n :: nat
    have "norm (gauss_coeff n * y ^ n) = ((\<bar>y\<bar> / 2) ^ n / fact n) / real (2 * n + 1)"
      by (simp add: gauss_coeff_def abs_mult power_abs power_divide divide_simps)
    also have "\<dots> \<le> ((\<bar>y\<bar> / 2) ^ n / fact n) / 1"
    proof (rule divide_left_mono)
      show "0 \<le> (\<bar>y\<bar> / 2) ^ n / fact n" by simp
    qed simp_all
    finally show "norm (gauss_coeff n * y ^ n) \<le> (\<bar>y\<bar> / 2) ^ n /\<^sub>R fact n"
      by (simp add: field_simps)
  qed
qed

lemma cdf_term_gauss_coeff: "cdf_term x n = x * (gauss_coeff n * (x\<^sup>2) ^ n)"
  by (simp add: cdf_term_def gauss_coeff_def power_mult [symmetric] mult.commute)

lemma gauss_series_eq: "(\<Sum>n. cdf_term x n) = x * (\<Sum>n. gauss_coeff n * (x\<^sup>2) ^ n)"
  by (simp add: cdf_term_gauss_coeff suminf_mult summable_gauss_coeff)

lemma summable_cdf_term: "summable (cdf_term x)"
proof -
  have "summable (\<lambda>n. x * (gauss_coeff n * (x\<^sup>2) ^ n))"
    by (intro summable_mult summable_gauss_coeff)
  then show ?thesis by (simp add: cdf_term_gauss_coeff [abs_def])
qed

lemma cdf_term_minus: "cdf_term (- x) n = - cdf_term x n"
  by (simp add: cdf_term_def)

lemma gauss_series_minus: "(\<Sum>n. cdf_term (- x) n) = - (\<Sum>n. cdf_term x n)"
  by (simp add: cdf_term_minus suminf_minus summable_cdf_term)

lemma gauss_series_0: "(\<Sum>n. cdf_term 0 n) = 0"
  by (simp add: cdf_term_def)

lemma gauss_coeff_exp:
  "(\<Sum>n. gauss_coeff n * y ^ n) + 2 * y * (\<Sum>n. diffs gauss_coeff n * y ^ n) = exp (- y / 2)"
proof -
  have s1: "(\<lambda>n. gauss_coeff n * y ^ n) sums (\<Sum>n. gauss_coeff n * y ^ n)"
    by (rule summable_sums [OF summable_gauss_coeff])
  have "summable (\<lambda>n. diffs gauss_coeff n * y ^ n)"
    by (rule termdiff_converges_all [OF summable_gauss_coeff])
  then have "(\<lambda>n. of_nat n * gauss_coeff n * y ^ (n - Suc 0)) sums (\<Sum>n. diffs gauss_coeff n * y ^ n)"
    by (rule diffs_equiv)
  then have "(\<lambda>n. 2 * y * (of_nat n * gauss_coeff n * y ^ (n - Suc 0))) sums
      (2 * y * (\<Sum>n. diffs gauss_coeff n * y ^ n))"
    by (rule sums_mult)
  with s1 have "(\<lambda>n. gauss_coeff n * y ^ n + 2 * y * (of_nat n * gauss_coeff n * y ^ (n - Suc 0)))
      sums ((\<Sum>n. gauss_coeff n * y ^ n) + 2 * y * (\<Sum>n. diffs gauss_coeff n * y ^ n))"
    by (rule sums_add)
  moreover have "gauss_coeff n * y ^ n + 2 * y * (of_nat n * gauss_coeff n * y ^ (n - Suc 0))
      = (- y / 2) ^ n /\<^sub>R fact n" for n
  proof (cases n)
    case 0
    then show ?thesis by (simp add: gauss_coeff_def)
  next
    case (Suc m)
    have "gauss_coeff n * y ^ n + 2 * y * (of_nat n * gauss_coeff n * y ^ (n - Suc 0))
        = gauss_coeff n * real (2 * n + 1) * y ^ n"
      using Suc by (simp add: algebra_simps)
    also have "\<dots> = (- 1) ^ n / (2 ^ n * fact n) * y ^ n"
      by (simp add: gauss_coeff_def)
    also have "\<dots> = ((- 1) * (y / 2)) ^ n / fact n"
      unfolding power_mult_distrib by (simp add: power_divide)
    also have "\<dots> = (- y / 2) ^ n /\<^sub>R fact n"
      by (simp add: field_simps)
    finally show ?thesis .
  qed
  ultimately have "(\<lambda>n. (- y / 2) ^ n /\<^sub>R fact n) sums
      ((\<Sum>n. gauss_coeff n * y ^ n) + 2 * y * (\<Sum>n. diffs gauss_coeff n * y ^ n))"
    by simp
  then show ?thesis
    using exp_converges [of "- y / 2"] sums_unique2 by blast
qed

lemma DERIV_gauss_series: "DERIV (\<lambda>x. \<Sum>n. cdf_term x n) x :> exp (- x\<^sup>2 / 2)"
proof -
  let ?H = "\<lambda>y. \<Sum>n. gauss_coeff n * y ^ n"
  have H: "DERIV ?H y :> (\<Sum>n. diffs gauss_coeff n * y ^ n)" for y
    by (rule termdiffs_strong_converges_everywhere [OF summable_gauss_coeff])
  have c: "DERIV (\<lambda>x. ?H (x\<^sup>2)) x :> (\<Sum>n. diffs gauss_coeff n * (x\<^sup>2) ^ n) * (2 * x)"
    by (rule DERIV_chain2 [OF H]) (auto intro!: derivative_eq_intros)
  have "DERIV (\<lambda>x. x * ?H (x\<^sup>2)) x :>
      1 * ?H (x\<^sup>2) + ((\<Sum>n. diffs gauss_coeff n * (x\<^sup>2) ^ n) * (2 * x)) * x"
    by (rule DERIV_mult [OF DERIV_ident c])
  moreover have "1 * ?H (x\<^sup>2) + ((\<Sum>n. diffs gauss_coeff n * (x\<^sup>2) ^ n) * (2 * x)) * x
      = exp (- x\<^sup>2 / 2)"
    using gauss_coeff_exp [of "x\<^sup>2"] by (simp add: power2_eq_square algebra_simps)
  ultimately show ?thesis
    by (simp add: gauss_series_eq [abs_def])
qed

lemma gauss_series_nonneg:
  assumes "0 \<le> x"
  shows "0 \<le> (\<Sum>n. cdf_term x n)"
proof -
  have "(\<Sum>n. cdf_term 0 n) \<le> (\<Sum>n. cdf_term x n)"
  proof (rule DERIV_nonneg_imp_nondecreasing [of 0 x "\<lambda>x. \<Sum>n. cdf_term x n"])
    show "0 \<le> x" by fact
    fix y :: real
    show "\<exists>d. DERIV (\<lambda>x. \<Sum>n. cdf_term x n) y :> d \<and> 0 \<le> d"
      using DERIV_gauss_series [of y] by (intro exI [of _ "exp (- y\<^sup>2 / 2)"]) simp
  qed
  then show ?thesis by (simp add: gauss_series_0)
qed

text \<open>
  The integrals of the powers of the cosine over \<open>[0, pi / 2]\<close> decrease, and the
  product of two neighbours is \<open>pi / (2 (m + 1))\<close>.
\<close>

lemma DERIV_cos_int: "DERIV (cos_int m) t :> cos t ^ m"
proof (induction m t rule: cos_int.induct)
  case (1 t)
  have "cos_int 0 = (\<lambda>t. t)" by (rule ext) simp
  then show ?case by simp
next
  case (2 t)
  have "cos_int (Suc 0) = sin" by (rule ext) simp
  then show ?case by simp
next
  case (3 m t)
  have eq: "cos_int (Suc (Suc m)) =
      (\<lambda>t. cos t ^ Suc m * sin t / real (m + 2) + real (m + 1) / real (m + 2) * cos_int m t)"
    by (rule ext) simp
  have p: "DERIV (\<lambda>t. cos t ^ Suc m) t :> real (Suc m) * (- sin t * cos t ^ (Suc m - Suc 0))"
    by (rule DERIV_power [OF DERIV_cos])
  have q: "DERIV (\<lambda>t. cos t ^ Suc m * sin t) t :>
      real (Suc m) * (- sin t * cos t ^ (Suc m - Suc 0)) * sin t + cos t * cos t ^ Suc m"
    by (rule DERIV_mult [OF p DERIV_sin])
  have "DERIV (\<lambda>t. cos t ^ Suc m * sin t / real (m + 2)
        + real (m + 1) / real (m + 2) * cos_int m t) t :>
      (real (Suc m) * (- sin t * cos t ^ (Suc m - Suc 0)) * sin t + cos t * cos t ^ Suc m)
          / real (m + 2)
        + real (m + 1) / real (m + 2) * cos t ^ m"
    by (rule DERIV_add [OF DERIV_cdivide [OF q] DERIV_cmult [OF "3.IH"]])
  moreover have "(real (Suc m) * (- sin t * cos t ^ (Suc m - Suc 0)) * sin t
          + cos t * cos t ^ Suc m) / real (m + 2)
        + real (m + 1) / real (m + 2) * cos t ^ m = cos t ^ Suc (Suc m)"
  proof -
    have s: "sin t * sin t = 1 - cos t * cos t"
      using sin_cos_squared_add [of t] by (simp add: power2_eq_square algebra_simps)
    have "real (Suc m) * (- sin t * cos t ^ (Suc m - Suc 0)) * sin t
        = - (real (Suc m) * cos t ^ m * (sin t * sin t))"
      by simp
    also have "\<dots> = - (real (Suc m) * cos t ^ m) + real (Suc m) * cos t ^ Suc (Suc m)"
      unfolding s by (simp add: algebra_simps)
    finally have a: "real (Suc m) * (- sin t * cos t ^ (Suc m - Suc 0)) * sin t
        = - (real (Suc m) * cos t ^ m) + real (Suc m) * cos t ^ Suc (Suc m)" .
    have gen: "(- (N * c) + N * c2 + c2) / (N + 1) + N / (N + 1) * c = c2"
      if "N + 1 \<noteq> 0" for N c c2 :: real
    proof -
      have "(- (N * c) + N * c2 + c2) / (N + 1) + N / (N + 1) * c
          = ((- (N * c) + N * c2 + c2) + N * c) / (N + 1)"
        by (simp only: add_divide_distrib times_divide_eq_left)
      also have "(- (N * c) + N * c2 + c2) + N * c = (N + 1) * c2"
        by (simp add: algebra_simps)
      also have "(N + 1) * c2 / (N + 1) = c2"
        using that by (rule nonzero_mult_div_cancel_left)
      finally show ?thesis .
    qed
    have "(- (real (Suc m) * cos t ^ m) + real (Suc m) * cos t ^ Suc (Suc m)
            + cos t ^ Suc (Suc m)) / (real (Suc m) + 1)
          + real (Suc m) / (real (Suc m) + 1) * cos t ^ m = cos t ^ Suc (Suc m)"
      by (rule gen) simp
    moreover have "real (m + 2) = real (Suc m) + 1" "real (m + 1) = real (Suc m)"
      "cos t * cos t ^ Suc m = cos t ^ Suc (Suc m)"
      by simp_all
    ultimately show ?thesis
      unfolding a by (simp only:)
  qed
  ultimately show ?case unfolding eq by simp
qed

lemma cos_int_0: "cos_int m 0 = 0"
  by (induction m "0::real" rule: cos_int.induct) simp_all

lemma wallis_Suc_Suc: "wallis (Suc (Suc m)) = real (m + 1) / real (m + 2) * wallis m"
  by (simp add: wallis_def)

lemma wallis_0: "wallis 0 = pi / 2" and wallis_1: "wallis (Suc 0) = 1"
  by (simp_all add: wallis_def)

lemma cos_int_mono:
  assumes "0 \<le> a" "a \<le> b" "b \<le> pi / 2"
  shows "cos_int m a \<le> cos_int m b"
proof (rule DERIV_nonneg_imp_nondecreasing [OF assms(2)])
  fix x assume "a \<le> x" "x \<le> b"
  then have "0 \<le> cos x" using assms by (intro cos_ge_zero) auto
  then show "\<exists>y. DERIV (cos_int m) x :> y \<and> 0 \<le> y"
    using DERIV_cos_int [of m x] by (intro exI [of _ "cos x ^ m"]) simp
qed

lemma wallis_nonneg: "0 \<le> wallis m"
  using cos_int_mono [of 0 "pi / 2" m] by (simp add: wallis_def cos_int_0)

lemma wallis_antimono: "wallis (Suc m) \<le> wallis m"
proof -
  let ?f = "\<lambda>t. cos_int m t - cos_int (Suc m) t"
  have "?f 0 \<le> ?f (pi / 2)"
  proof (rule DERIV_nonneg_imp_nondecreasing [of 0 "pi / 2" ?f])
    show "(0::real) \<le> pi / 2" by simp
    fix x :: real assume x: "0 \<le> x" "x \<le> pi / 2"
    then have c: "0 \<le> cos x" by (intro cos_ge_zero) auto
    have "DERIV ?f x :> cos x ^ m - cos x ^ Suc m"
      by (intro DERIV_diff DERIV_cos_int)
    moreover have "0 \<le> cos x ^ m - cos x ^ Suc m"
    proof -
      have "cos x ^ Suc m = cos x ^ m * cos x" by simp
      also have "\<dots> \<le> cos x ^ m * 1"
        by (intro mult_left_mono) (use c in auto)
      finally show ?thesis by simp
    qed
    ultimately show "\<exists>y. DERIV ?f x :> y \<and> 0 \<le> y" by blast
  qed
  then show ?thesis by (simp add: wallis_def cos_int_0)
qed

lemma wallis_product: "wallis m * wallis (Suc m) = pi / (2 * real (m + 1))"
proof (induction m)
  case 0
  then show ?case by (simp add: wallis_0 wallis_1)
next
  case (Suc m)
  have "wallis (Suc m) * wallis (Suc (Suc m))
      = real (m + 1) / real (m + 2) * (wallis m * wallis (Suc m))"
    by (simp add: wallis_Suc_Suc)
  also have "\<dots> = pi / (2 * real (Suc m + 1))"
  proof -
    have gen: "A \<noteq> 0 \<Longrightarrow> B \<noteq> 0 \<Longrightarrow> A / B * (p / (2 * A)) = p / (2 * B)" for A B p :: real
      by (simp add: field_simps)
    have "real (m + 1) / real (m + 2) * (pi / (2 * real (m + 1))) = pi / (2 * real (m + 2))"
      by (rule gen) simp_all
    then show ?thesis unfolding Suc.IH by (simp add: add.commute)
  qed
  finally show ?case .
qed

lemma wallis_square: "(wallis (Suc m))\<^sup>2 \<le> pi / (2 * real (m + 1))"
proof -
  have "(wallis (Suc m))\<^sup>2 = wallis (Suc m) * wallis (Suc m)"
    by (simp add: power2_eq_square)
  also have "\<dots> \<le> wallis m * wallis (Suc m)"
    by (intro mult_right_mono wallis_antimono wallis_nonneg)
  finally show ?thesis by (simp add: wallis_product)
qed

text \<open>
  From \<open>exp (- x\<^sup>2 / 2) \<le> (1 + x\<^sup>2 / (2 n)) ^ (- n)\<close> the series is bounded by
  \<open>sqrt (2 n)\<close> times such an integral, for every \<open>n\<close>, and so by \<open>sqrt (pi / 2)\<close>.
\<close>

lemma exp_le_inverse_power:
  fixes x :: real
  shows "exp (- x\<^sup>2 / 2) \<le> (1 / (1 + x\<^sup>2 / (2 * real (Suc k)))) ^ Suc k"
proof -
  let ?u = "x\<^sup>2 / (2 * real (Suc k))"
  have u: "0 \<le> ?u" by simp
  have "- x\<^sup>2 / 2 = real (Suc k) * (- ?u)" by (simp add: field_simps)
  then have "exp (- x\<^sup>2 / 2) = exp (- ?u) ^ Suc k"
    by (simp only: exp_of_nat_mult)
  also have "\<dots> \<le> (1 / (1 + ?u)) ^ Suc k"
  proof (rule power_mono)
    have "1 + ?u \<le> exp ?u" by (rule exp_ge_add_one_self)
    moreover have "0 < 1 + ?u" using u by linarith
    ultimately have "1 / exp ?u \<le> 1 / (1 + ?u)"
      by (intro divide_left_mono) (auto intro: mult_pos_pos)
    then show "exp (- ?u) \<le> 1 / (1 + ?u)" by (simp add: exp_minus inverse_eq_divide)
    show "0 \<le> exp (- ?u)" by simp
  qed
  finally show ?thesis .
qed

lemma gauss_series_le_cos_int:
  assumes "0 \<le> x"
  shows "(\<Sum>n. cdf_term x n)
    \<le> sqrt (2 * real (Suc k)) * cos_int (2 * k) (arctan (x / sqrt (2 * real (Suc k))))"
proof -
  let ?s = "sqrt (2 * real (Suc k))"
  let ?G = "\<lambda>x. \<Sum>n. cdf_term x n"
  let ?f = "\<lambda>x. ?s * cos_int (2 * k) (arctan (x / ?s)) - ?G x"
  have s: "0 < ?s" by simp
  have s2: "?s\<^sup>2 = 2 * real (Suc k)" by simp
  have "?f 0 \<le> ?f x"
  proof (rule DERIV_nonneg_imp_nondecreasing [of 0 x ?f])
    show "0 \<le> x" by fact
    fix y :: real
    let ?u = "y / ?s"
    have u2: "?u\<^sup>2 = y\<^sup>2 / (2 * real (Suc k))"
      by (simp only: power_divide s2)
    have a: "DERIV (\<lambda>y. arctan (y / ?s)) y :> inverse (1 + ?u\<^sup>2) * (1 / ?s)"
      by (rule DERIV_chain2 [OF DERIV_arctan DERIV_cdivide [OF DERIV_ident]])
    have c: "DERIV (\<lambda>y. cos_int (2 * k) (arctan (y / ?s))) y :>
        cos (arctan ?u) ^ (2 * k) * (inverse (1 + ?u\<^sup>2) * (1 / ?s))"
      by (rule DERIV_chain2 [OF DERIV_cos_int a])
    have d: "DERIV ?f y :>
        ?s * (cos (arctan ?u) ^ (2 * k) * (inverse (1 + ?u\<^sup>2) * (1 / ?s))) - exp (- y\<^sup>2 / 2)"
      by (rule DERIV_diff [OF DERIV_cmult [OF c] DERIV_gauss_series])
    have pos: "0 < 1 + ?u\<^sup>2" by (simp add: add_pos_nonneg)
    have "cos (arctan ?u) ^ (2 * k) = ((cos (arctan ?u))\<^sup>2) ^ k"
      by (simp add: power_mult)
    also have "(cos (arctan ?u))\<^sup>2 = 1 / (1 + ?u\<^sup>2)"
      using pos by (simp add: cos_arctan power_divide)
    finally have "?s * (cos (arctan ?u) ^ (2 * k) * (inverse (1 + ?u\<^sup>2) * (1 / ?s)))
        = (1 / (1 + ?u\<^sup>2)) ^ k * (1 / (1 + ?u\<^sup>2))"
      using s by (simp add: inverse_eq_divide)
    also have "\<dots> = (1 / (1 + y\<^sup>2 / (2 * real (Suc k)))) ^ Suc k"
      by (simp only: u2 power_Suc2)
    finally have "0 \<le> ?s * (cos (arctan ?u) ^ (2 * k) * (inverse (1 + ?u\<^sup>2) * (1 / ?s)))
        - exp (- y\<^sup>2 / 2)"
      using exp_le_inverse_power [of y k] by simp
    with d show "\<exists>d. DERIV ?f y :> d \<and> 0 \<le> d" by blast
  qed
  then show ?thesis by (simp add: gauss_series_0 cos_int_0)
qed

lemma gauss_series_square_le:
  assumes "0 \<le> x"
  shows "(\<Sum>n. cdf_term x n)\<^sup>2 * (real k + 1) \<le> pi / 2 * (real k + 2)"
proof -
  let ?s = "sqrt (2 * real (Suc (Suc k)))"
  let ?G = "\<Sum>n. cdf_term x n"
  let ?m = "2 * Suc k"
  have at: "0 \<le> arctan (x / ?s)" "arctan (x / ?s) \<le> pi / 2"
    using assms arctan_ubound [of "x / ?s"] by (simp_all add: less_imp_le)
  have "?G \<le> ?s * cos_int ?m (arctan (x / ?s))"
    by (rule gauss_series_le_cos_int [OF assms])
  also have "\<dots> \<le> ?s * wallis ?m"
    unfolding wallis_def
    by (intro mult_left_mono cos_int_mono at) simp_all
  finally have "?G \<le> ?s * wallis ?m" .
  then have "?G\<^sup>2 \<le> (?s * wallis ?m)\<^sup>2"
    using gauss_series_nonneg [OF assms] by (intro power_mono) simp_all
  also have "\<dots> = 2 * real (Suc (Suc k)) * (wallis ?m)\<^sup>2"
    by (simp add: power_mult_distrib)
  also have "\<dots> \<le> 2 * real (Suc (Suc k)) * (pi / (2 * real (2 * k + 1 + 1)))"
    using wallis_square [of "2 * k + 1"] by (intro mult_left_mono) simp_all
  finally have "?G\<^sup>2 \<le> 2 * real (Suc (Suc k)) * (pi / (2 * real (2 * k + 1 + 1)))" .
  then have "?G\<^sup>2 * (real k + 1) \<le>
      2 * real (Suc (Suc k)) * (pi / (2 * real (2 * k + 1 + 1))) * (real k + 1)"
    by (intro mult_right_mono) simp_all
  also have "\<dots> = pi / 2 * (real k + 2)"
    by (simp add: field_simps)
  finally show ?thesis .
qed

lemma gauss_series_square_bound:
  assumes "0 \<le> x"
  shows "(\<Sum>n. cdf_term x n)\<^sup>2 \<le> pi / 2"
proof (rule ccontr)
  let ?g = "(\<Sum>n. cdf_term x n)\<^sup>2"
  assume "\<not> ?g \<le> pi / 2"
  then have e: "0 < ?g - pi / 2" by simp
  obtain k :: nat where k: "pi / 2 < real k * (?g - pi / 2)"
    using ex_less_of_nat_mult [OF e] by blast
  have "?g * (real k + 1) \<le> pi / 2 * (real k + 2)"
    by (rule gauss_series_square_le [OF assms])
  moreover have gen: "g * a \<le> p * (a + 1) \<Longrightarrow> a * (g - p) \<le> p" for g a p :: real
    by (simp add: algebra_simps)
  moreover have "real k + 2 = (real k + 1) + 1" by simp
  ultimately have "(real k + 1) * (?g - pi / 2) \<le> pi / 2"
    by (simp only:)
  moreover have "real k * (?g - pi / 2) \<le> (real k + 1) * (?g - pi / 2)"
    using e by (intro mult_right_mono) simp_all
  ultimately show False using k by linarith
qed

lemma gauss_series_abs_bound: "\<bar>\<Sum>n. cdf_term x n\<bar> \<le> sqrt (pi / 2)"
proof -
  have pos: "\<bar>\<Sum>n. cdf_term y n\<bar> \<le> sqrt (pi / 2)" if "0 \<le> y" for y
  proof -
    have "(\<Sum>n. cdf_term y n) \<le> sqrt (pi / 2)"
      by (rule real_le_rsqrt [OF gauss_series_square_bound [OF that]])
    then show ?thesis using gauss_series_nonneg [OF that] by simp
  qed
  show ?thesis
  proof (cases "0 \<le> x")
    case True
    then show ?thesis by (rule pos)
  next
    case False
    then have "\<bar>\<Sum>n. cdf_term (- x) n\<bar> \<le> sqrt (pi / 2)" by (intro pos) simp
    then show ?thesis by (simp add: gauss_series_minus)
  qed
qed

lemma norm_cdf_minus: "norm_cdf (- x) = 1 - norm_cdf x"
  by (simp add: norm_cdf_def gauss_series_minus algebra_simps)

lemma norm_cdf_range: "0 \<le> norm_cdf x \<and> norm_cdf x \<le> 1"
proof -
  let ?G = "\<Sum>n. cdf_term x n"
  have "sqrt (pi / 2) = sqrt (2 * pi) / 2"
  proof -
    have "sqrt (pi / 2) = sqrt (2 * pi / 4)" by simp
    also have "\<dots> = sqrt (2 * pi) / sqrt 4" by (rule real_sqrt_divide)
    also have "sqrt 4 = (2::real)" using real_sqrt_abs [of 2] by simp
    finally show ?thesis .
  qed
  then have "\<bar>?G\<bar> \<le> sqrt (2 * pi) / 2"
    using gauss_series_abs_bound [of x] by simp
  then have "\<bar>?G\<bar> / sqrt (2 * pi) \<le> (sqrt (2 * pi) / 2) / sqrt (2 * pi)"
    by (rule divide_right_mono) simp
  also have "(sqrt (2 * pi) / 2) / sqrt (2 * pi) = 1 / 2" by simp
  finally have "\<bar>?G / sqrt (2 * pi)\<bar> \<le> 1 / 2" by simp
  then have "- (1 / 2) \<le> ?G / sqrt (2 * pi)" "?G / sqrt (2 * pi) \<le> 1 / 2"
    by (simp_all only: abs_le_iff minus_le_iff [of "1 / 2"])
  moreover have "norm_cdf x = 1 / 2 + ?G / sqrt (2 * pi)"
    by (simp add: norm_cdf_def)
  ultimately show ?thesis by linarith
qed

lemma DERIV_norm_cdf: "DERIV norm_cdf x :> pdf x"
proof -
  have "DERIV (\<lambda>x. 0.5 + (1.0 / sqrt (2 * pi)) * (\<Sum>n. cdf_term x n)) x :>
      0 + (1.0 / sqrt (2 * pi)) * exp (- x\<^sup>2 / 2)"
    by (rule DERIV_add [OF DERIV_const DERIV_cmult [OF DERIV_gauss_series]])
  moreover have "norm_cdf = (\<lambda>x. 0.5 + (1.0 / sqrt (2 * pi)) * (\<Sum>n. cdf_term x n))"
    by (rule ext) (simp add: norm_cdf_def)
  moreover have "0 + (1.0 / sqrt (2 * pi)) * exp (- x\<^sup>2 / 2) = pdf x"
    by (simp add: pdf_def power2_eq_square)
  ultimately show ?thesis by simp
qed

lemma norm_cdf_0: "norm_cdf 0 = 1 / 2"
  by (simp add: norm_cdf_def gauss_series_0)

subsection \<open>Evaluating \<open>d_1\<close> and the operations before expiry\<close>

lemma d_1_eval:
  "0 < T \<Longrightarrow> d_1 S K T r sigma =
     (if K = 0 then Inl ZeroDivisionError
      else if S / K \<le> 0 then Inl MathDomainError
      else if sigma = 0 then Inl ZeroDivisionError
      else Inr ((ln (S / K) + (r + 0.5 * sigma\<^sup>2) * T) / (sigma * sqrt T)))"
  by (simp add: d_1_def py_div_def py_log_def py_sqrt_def bind_err_def)


lemma d_1_valid:
  assumes "0 < S" "0 < K" "0 < T" "0 < sigma"
  shows "\<exists>d1. d_1 S K T r sigma = Inr d1"
  using assms by (simp add: d_1_eval not_le)

lemma d_2_eval:
  "0 < T \<Longrightarrow> d_2 S K T r sigma =
     (case d_1 S K T r sigma of Inl e \<Rightarrow> Inl e | Inr d1 \<Rightarrow> Inr (d1 - sigma * sqrt T))"
  by (simp add: d_2_def py_sqrt_def bind_err_def)

lemma pdf_pos: "0 < pdf x"
  by (simp add: pdf_def)

lemma option_price_ok:
  assumes "0 < T" "d_1 S K T r sigma = Inr d1"
  shows "option_price cdf option_type S K T r sigma =
    (if lower option_type = ''call'' then
       Inr (S * cdf d1 - K * exp (- r * T) * cdf (d1 - sigma * sqrt T))
     else if lower option_type = ''put'' then
       Inr (K * exp (- r * T) * cdf (- (d1 - sigma * sqrt T)) - S * cdf (- d1))
     else Inl OptionTypeError)"
  using assms by (simp add: option_price_def d_2_eval bind_err_def)

lemma delta_ok:
  assumes "0 < T" "d_1 S K T r sigma = Inr d1"
  shows "delta cdf option_type S K T r sigma =
    (if lower option_type = ''call'' then Inr (cdf d1)
     else if lower option_type = ''put'' then Inr (cdf d1 - 1)
     else Inl OptionTypeError)"
  using assms by (simp add: delta_def bind_err_def)

lemma gamma_ok:
  assumes "0 < T" "d_1 S K T r sigma = Inr d1"
  shows "gamma S K T r sigma = Inr (pdf d1 / (S * sigma * sqrt T))"
proof -
  have "K \<noteq> 0 \<and> 0 < S / K \<and> sigma \<noteq> 0"
    using assms by (auto simp add: d_1_eval not_le split: if_splits)
  then have "S * sigma * sqrt T \<noteq> 0" using \<open>0 < T\<close> by auto
  then show ?thesis
    using assms by (simp add: gamma_def bind_err_def py_sqrt_def py_div_def)
qed

lemma vega_ok:
  assumes "0 < T" "d_1 S K T r sigma = Inr d1"
  shows "vega S K T r sigma = Inr (S * pdf d1 * sqrt T)"
  using assms by (simp add: vega_def bind_err_def py_sqrt_def)

lemma theta_ok:
  assumes "0 < T" "d_1 S K T r sigma = Inr d1"
  shows "theta cdf option_type S K T r sigma =
    (if lower option_type = ''call'' then
       Inr (- (S * pdf d1 * sigma) / (2 * sqrt T) + (- r * K * exp (- r * T) * cdf (d1 - sigma * sqrt T)))
     else if lower option_type = ''put'' then
       Inr (- (S * pdf d1 * sigma) / (2 * sqrt T) + r * K * exp (- r * T) * cdf (- (d1 - sigma * sqrt T)))
     else Inl OptionTypeError)"
  using assms by (simp add: theta_def d_2_eval bind_err_def py_sqrt_def py_div_def)

lemma rho_ok:
  assumes "0 < T" "d_1 S K T r sigma = Inr d1"
  shows "rho cdf option_type S K T r sigma =
    (if lower option_type = ''call'' then Inr (K * T * exp (- r * T) * cdf (d1 - sigma * sqrt T))
     else if lower option_type = ''put'' then
       Inr (- K * T * exp (- r * T) * cdf (- (d1 - sigma * sqrt T)))
     else Inl OptionTypeError)"
  using assms by (simp add: rho_def d_2_eval bind_err_def)


lemma greeks_at_expiry:
  assumes "T \<le> 0" "lower option_type = ''call'' \<or> lower option_type = ''put''"
  shows "\<exists>b. greeks_at cdf option_type S K T r sigma = Inr b \<and> b_gamma b = 0 \<and> b_vega b = 0"
  using assms
  by (auto simp add: greeks_at_def option_price_def delta_def gamma_def vega_def theta_def
      rho_def bind_err_def)

lemma greeks_at_ok:
  assumes "0 < T" "d_1 S K T r sigma = Inr d1"
    and "lower option_type = ''call'' \<or> lower option_type = ''put''"
  shows "\<exists>b. greeks_at cdf option_type S K T r sigma = Inr b \<and>
             b_gamma b = pdf d1 / (S * sigma * sqrt T) \<and> b_vega b = S * pdf d1 * sqrt T"
  using assms(3)
  by (auto simp add: greeks_at_def bind_err_def option_price_ok [OF assms(1,2)]
      delta_ok [OF assms(1,2)] gamma_ok [OF assms(1,2)] vega_ok [OF assms(1,2)]
      theta_ok [OF assms(1,2)] rho_ok [OF assms(1,2)])

lemma greeks_at_Inr:
  assumes "greeks_at cdf option_type s K T_rem r sigma = Inr b"
  shows "option_price cdf option_type s K T_rem r sigma = Inr (b_price b) \<and>
         delta cdf option_type s K T_rem r sigma = Inr (b_delta b) \<and>
         gamma s K T_rem r sigma = Inr (b_gamma b) \<and>
         vega s K T_rem r sigma = Inr (b_vega b) \<and>
         theta cdf option_type s K T_rem r sigma = Inr (b_theta b) \<and>
         rho cdf option_type s K T_rem r sigma = Inr (b_rho b)"
  using assms
  by (auto simp add: greeks_at_def bind_err_def split: sum.splits)

lemma greeks_at_valid:
  assumes "0 < s" "0 < K" "0 < sigma"
    and "lower option_type = ''call'' \<or> lower option_type = ''put''"
  shows "\<exists>b. greeks_at cdf option_type s K T_rem r sigma = Inr b"
proof (cases "T_rem \<le> 0")
  case True
  then show ?thesis using greeks_at_expiry assms(4) by blast
next
  case False
  then have T: "0 < T_rem" by simp
  then obtain d1 where "d_1 s K T_rem r sigma = Inr d1"
    using d_1_valid assms by blast
  then show ?thesis using greeks_at_ok [OF T _ assms(4)] by blast
qed

subsection \<open>Expiry: the branch \<open>T \<le> 0\<close>\<close>

text \<open>
  C1. When \<open>T \<le> 0\<close>, \<open>option_price\<close> returns the intrinsic payoff for every spelling
  of the option type that lowers to "call" or "put": \<open>max (S - K) 0\<close> for a call and
  \<open>max (K - S) 0\<close> for a put. The value is undiscounted and mentions neither \<open>sigma\<close>
  nor \<open>r\<close> (nor the distribution function).
\<close>

theorem option_price_expiry_intrinsic:
  "T \<le> 0 \<Longrightarrow>
     (lower option_type = ''call'' \<longrightarrow>
        option_price cdf option_type S K T r sigma = Inr (max (S - K) 0)) \<and>
     (lower option_type = ''put'' \<longrightarrow>
        option_price cdf option_type S K T r sigma = Inr (max (K - S) 0))"
  by (simp add: option_price_def)

theorem option_price_expiry_intrinsic_witness:
  "(0::real) \<le> 0 \<and> lower ''CALL'' = ''call'' \<and> lower ''Put'' = ''put'' \<and>
   option_price norm_cdf ''CALL'' 105 100 0 0.05 0.2 = Inr 5 \<and>
   option_price norm_cdf ''Put'' 105 100 0 0.05 0.2 = Inr 0"
  using option_price_expiry_intrinsic [where T = 0 and option_type = "''CALL''"
      and cdf = norm_cdf and S = 105 and K = 100 and r = "0.05" and sigma = "0.2"]
    option_price_expiry_intrinsic [where T = 0 and option_type = "''Put''"
      and cdf = norm_cdf and S = 105 and K = 100 and r = "0.05" and sigma = "0.2"]
  by (simp add: lower_literals)

text \<open>
  C4. When \<open>T \<le> 0\<close>, \<open>delta\<close> is the step function: 1 for a call if \<open>S > K\<close> and 0
  otherwise, -1 for a put if \<open>S < K\<close> and 0 otherwise; at \<open>S = K\<close> both are 0.
\<close>

theorem delta_expiry_step:
  "T \<le> 0 \<Longrightarrow>
     (lower option_type = ''call'' \<longrightarrow>
        delta cdf option_type S K T r sigma = Inr (if S > K then 1 else 0)) \<and>
     (lower option_type = ''put'' \<longrightarrow>
        delta cdf option_type S K T r sigma = Inr (if S < K then - 1 else 0)) \<and>
     (lower option_type = ''call'' \<or> lower option_type = ''put'' \<longrightarrow>
        delta cdf option_type K K T r sigma = Inr 0)"
  by (auto simp add: delta_def)

theorem delta_expiry_step_witness:
  "(0::real) \<le> 0 \<and> lower ''call'' = ''call'' \<and> lower ''PUT'' = ''put'' \<and>
   delta norm_cdf ''call'' 105 100 0 0.05 0.2 = Inr 1 \<and>
   delta norm_cdf ''call'' 100 100 0 0.05 0.2 = Inr 0 \<and>
   delta norm_cdf ''PUT'' 95 100 0 0.05 0.2 = Inr (- 1) \<and>
   delta norm_cdf ''PUT'' 100 100 0 0.05 0.2 = Inr 0"
  using delta_expiry_step [where T = 0 and option_type = "''call''"
      and cdf = norm_cdf and S = 105 and K = 100 and r = "0.05" and sigma = "0.2"]
    delta_expiry_step [where T = 0 and option_type = "''PUT''"
      and cdf = norm_cdf and S = 95 and K = 100 and r = "0.05" and sigma = "0.2"]
  by (simp add: lower_literals)

text \<open>
  C10. When \<open>T \<le> 0\<close>, \<open>gamma\<close>, \<open>vega\<close>, \<open>theta\<close> and \<open>rho\<close> return 0 for every
  \<open>S\<close>, \<open>K\<close>, \<open>r\<close>, \<open>sigma\<close> and every option-type string: nothing on this branch
  raises.
\<close>

theorem greeks_expiry_zero:
  "T \<le> 0 \<Longrightarrow>
     gamma S K T r sigma = Inr 0 \<and>
     vega S K T r sigma = Inr 0 \<and>
     theta cdf option_type S K T r sigma = Inr 0 \<and>
     rho cdf option_type S K T r sigma = Inr 0"
  by (simp add: gamma_def vega_def theta_def rho_def)

theorem greeks_expiry_zero_witness:
  "(- 1::real) \<le> 0 \<and>
   gamma (- 3) 0 (- 1) 0.05 0 = Inr 0 \<and>
   vega (- 3) 0 (- 1) 0.05 0 = Inr 0 \<and>
   theta norm_cdf ''straddle'' (- 3) 0 (- 1) 0.05 0 = Inr 0 \<and>
   rho norm_cdf ''straddle'' (- 3) 0 (- 1) 0.05 0 = Inr 0"
  using greeks_expiry_zero [where T = "- 1" and S = "- 3" and K = 0 and r = "0.05"
      and sigma = 0 and cdf = norm_cdf and option_type = "''straddle''"]
  by simp

subsection \<open>Relations between the operations\<close>

text \<open>
  C2. Put-call parity over the reals: for \<open>S > 0\<close>, \<open>K > 0\<close>, \<open>T > 0\<close>,
  \<open>sigma > 0\<close> and every \<open>r\<close>, both prices are returned and the call price minus the
  put price is \<open>S - K * exp (- r * T)\<close>. The distribution function enters through its
  symmetry \<open>cdf (- x) = 1 - cdf x\<close> only.
\<close>

theorem put_call_parity:
  assumes sym: "\<And>x. cdf (- x) = 1 - cdf x"
    and "0 < S" "0 < K" "0 < T" "0 < sigma"
    and "lower call_type = ''call''" "lower put_type = ''put''"
  shows "\<exists>c p. option_price cdf call_type S K T r sigma = Inr c \<and>
               option_price cdf put_type S K T r sigma = Inr p \<and>
               c - p = S - K * exp (- r * T)"
proof -
  obtain d1 where d1: "d_1 S K T r sigma = Inr d1"
    using d_1_valid assms by blast
  have d2: "d_2 S K T r sigma = Inr (d1 - sigma * sqrt T)"
    using \<open>0 < T\<close> by (simp add: d_2_eval d1)
  let ?d2 = "d1 - sigma * sqrt T"
  have c: "option_price cdf call_type S K T r sigma = Inr (S * cdf d1 - K * exp (- r * T) * cdf ?d2)"
    using assms by (simp add: option_price_def d1 d2 bind_err_def)
  have neg: "cdf (sigma * sqrt T - d1) = 1 - cdf ?d2"
    using sym [of ?d2] by simp
  have p: "option_price cdf put_type S K T r sigma =
      Inr (K * exp (- r * T) * (1 - cdf ?d2) - S * (1 - cdf d1))"
    using assms by (simp add: option_price_def d1 d2 bind_err_def neg)
  have "(S * cdf d1 - K * exp (- r * T) * cdf ?d2) -
        (K * exp (- r * T) * (1 - cdf ?d2) - S * (1 - cdf d1)) = S - K * exp (- r * T)"
    by (simp add: algebra_simps)
  with c p show ?thesis by blast
qed

theorem put_call_parity_witness:
  "(\<forall>x. norm_cdf (- x) = 1 - norm_cdf x) \<and>
   (0::real) < 100 \<and> (0::real) < 1 \<and> (0::real) < 0.2 \<and>
   lower ''call'' = ''call'' \<and> lower ''PUT'' = ''put'' \<and>
   (\<exists>c p. option_price norm_cdf ''call'' 100 100 1 0.05 0.2 = Inr c \<and>
          option_price norm_cdf ''PUT'' 100 100 1 0.05 0.2 = Inr p \<and>
          c - p = 100 - 100 * exp (- 0.05 * 1))"
proof -
  have "\<exists>c p. option_price norm_cdf ''call'' 100 100 1 0.05 0.2 = Inr c \<and>
          option_price norm_cdf ''PUT'' 100 100 1 0.05 0.2 = Inr p \<and>
          c - p = 100 - 100 * exp (- 0.05 * 1)"
    using put_call_parity [where cdf = norm_cdf and S = 100 and K = 100 and T = 1
        and sigma = "0.2" and r = "0.05" and call_type = "''call''" and put_type = "''PUT''"]
      norm_cdf_minus
    by (simp add: lower_literals)
  then show ?thesis using norm_cdf_minus by (simp add: lower_literals)
qed

text \<open>
  C5. For \<open>S > 0\<close>, \<open>K > 0\<close>, \<open>sigma > 0\<close> and \<open>T \<ge> 0\<close>, \<open>delta\<close> returns a
  value in \<open>[0, 1]\<close> for a call and in \<open>[-1, 0]\<close> for a put, for every distribution
  function with values in \<open>[0, 1]\<close>.
\<close>

theorem delta_bounds:
  assumes range: "\<And>x. 0 \<le> cdf x \<and> cdf x \<le> 1"
    and "0 < S" "0 < K" "0 < sigma" "0 \<le> T"
  shows "(lower option_type = ''call'' \<longrightarrow>
           (\<exists>v. delta cdf option_type S K T r sigma = Inr v \<and> 0 \<le> v \<and> v \<le> 1)) \<and>
         (lower option_type = ''put'' \<longrightarrow>
           (\<exists>v. delta cdf option_type S K T r sigma = Inr v \<and> - 1 \<le> v \<and> v \<le> 0))"
proof (cases "T \<le> 0")
  case True
  then show ?thesis by (auto simp add: delta_def)
next
  case False
  then have "0 < T" by simp
  then obtain d1 where d1: "d_1 S K T r sigma = Inr d1"
    using d_1_valid assms by blast
  have "0 \<le> cdf d1" "cdf d1 \<le> 1" using range by auto
  then show ?thesis
    using False by (auto simp add: delta_def d1 bind_err_def)
qed

theorem delta_bounds_witness:
  "(\<forall>x. 0 \<le> norm_cdf x \<and> norm_cdf x \<le> 1) \<and>
   (0::real) < 100 \<and> (0::real) < 0.2 \<and> (0::real) \<le> 1 \<and>
   lower ''call'' = ''call'' \<and> lower ''put'' = ''put'' \<and>
   (\<exists>v. delta norm_cdf ''call'' 100 100 1 0.05 0.2 = Inr v \<and> 0 \<le> v \<and> v \<le> 1) \<and>
   (\<exists>v. delta norm_cdf ''put'' 100 100 1 0.05 0.2 = Inr v \<and> - 1 \<le> v \<and> v \<le> 0)"
  using delta_bounds [where cdf = norm_cdf and S = 100 and K = 100 and T = 1
      and sigma = "0.2" and r = "0.05" and option_type = "''call''"]
    delta_bounds [where cdf = norm_cdf and S = 100 and K = 100 and T = 1
      and sigma = "0.2" and r = "0.05" and option_type = "''put''"]
    norm_cdf_range
  by (simp add: lower_literals)

text \<open>
  C6. For \<open>S > 0\<close>, \<open>K > 0\<close>, \<open>sigma > 0\<close> and \<open>T \<ge> 0\<close>, \<open>gamma\<close> and \<open>vega\<close>
  return non-negative values. Neither takes an option type, and the bundle computed for
  a call and the one computed for a put at the same parameters carry these same two
  values.
\<close>

theorem gamma_vega_nonneg:
  assumes "0 < S" "0 < K" "0 < sigma" "0 \<le> T"
  shows "\<exists>g v. gamma S K T r sigma = Inr g \<and> 0 \<le> g \<and>
               vega S K T r sigma = Inr v \<and> 0 \<le> v \<and>
               (\<forall>option_type. lower option_type = ''call'' \<or> lower option_type = ''put'' \<longrightarrow>
                  (\<exists>b. greeks_at cdf option_type S K T r sigma = Inr b \<and>
                       b_gamma b = g \<and> b_vega b = v))"
proof (cases "T \<le> 0")
  case True
  then have "gamma S K T r sigma = Inr 0" "vega S K T r sigma = Inr 0"
    by (simp_all add: gamma_def vega_def)
  then show ?thesis using greeks_at_expiry [OF True] by auto
next
  case False
  then have T: "0 < T" by simp
  then obtain d1 where d1: "d_1 S K T r sigma = Inr d1"
    using d_1_valid assms by blast
  have "0 \<le> pdf d1 / (S * sigma * sqrt T)"
    using assms T pdf_pos [of d1] by simp
  moreover have "0 \<le> S * pdf d1 * sqrt T"
    using assms T pdf_pos [of d1] by simp
  ultimately show ?thesis
    using gamma_ok [OF T d1] vega_ok [OF T d1] greeks_at_ok [OF T d1] by auto
qed

theorem gamma_vega_nonneg_witness:
  "(0::real) < 100 \<and> (0::real) < 0.2 \<and> (0::real) \<le> 1 \<and> lower ''Put'' = ''put'' \<and>
   (\<exists>g v. gamma 100 100 1 0.05 0.2 = Inr g \<and> 0 \<le> g \<and>
          vega 100 100 1 0.05 0.2 = Inr v \<and> 0 \<le> v \<and>
          (\<exists>b. greeks_at norm_cdf ''Put'' 100 100 1 0.05 0.2 = Inr b \<and>
               b_gamma b = g \<and> b_vega b = v))"
proof -
  have "\<exists>g v. gamma 100 100 1 0.05 0.2 = Inr g \<and> 0 \<le> g \<and>
          vega 100 100 1 0.05 0.2 = Inr v \<and> 0 \<le> v \<and>
          (\<exists>b. greeks_at norm_cdf ''Put'' 100 100 1 0.05 0.2 = Inr b \<and>
               b_gamma b = g \<and> b_vega b = v)"
    using gamma_vega_nonneg [where S = 100 and K = 100 and T = 1 and r = "0.05"
        and sigma = "0.2" and cdf = norm_cdf]
    by (simp add: lower_literals) (metis lower_literals(6))
  then show ?thesis by (simp add: lower_literals)
qed

subsection \<open>Errors\<close>




text \<open>
  At \<open>T \<le> 0\<close>, \<open>delta\<close> treats every string that does not lower to "call" as a put.
\<close>

lemma delta_expiry_defaults_to_put:
  "delta norm_cdf ''straddle'' 95 100 0 0.05 0.2 = Inr (- 1)"
  by (simp add: lower_literals delta_def)




lemma gamma_negative_volatility:
  "gamma 100 100 1 0.05 (- 0.2) = Inr (- (pdf (- 0.35) / 20))"
proof -
  have "d_1 100 100 1 0.05 (- 0.2) = Inr (- 0.35)"
    by (simp add: d_1_eval power2_eq_square)
  then show ?thesis
    using gamma_ok [of 1 100 100 "0.05" "- 0.2" "- 0.35"] by simp
qed

subsection \<open>The path simulator\<close>

lemma simulate_S_length: "length (fst (simulate_S randn r sigma dt n s g)) = n"
  by (induction n arbitrary: s g) (simp_all add: Let_def case_prod_beta)

lemma simulate_S_pos:
  "0 < s \<Longrightarrow> x \<in> set (fst (simulate_S randn r sigma dt n s g)) \<Longrightarrow> 0 < x"
proof (induction n arbitrary: s g)
  case 0
  then show ?case by simp
next
  case (Suc n)
  obtain z g' where z: "randn g = (z, g')" by (cases "randn g")
  let ?s' = "s * exp ((r - 0.5 * sigma\<^sup>2) * dt + sigma * sqrt dt * z)"
  have pos: "0 < ?s'" using Suc.prems(1) by simp
  from Suc.prems(2) z have "x = ?s' \<or> x \<in> set (fst (simulate_S randn r sigma dt n ?s' g'))"
    by (auto simp add: Let_def split: prod.splits)
  then show ?case using pos Suc.IH [OF pos] by auto
qed

lemma greeks_loop_valid:
  assumes "0 < K" "0 < sigma"
    and "lower option_type = ''call'' \<or> lower option_type = ''put''"
  shows "\<forall>p \<in> set xs. 0 < snd p \<Longrightarrow>
         \<exists>bs. greeks_loop cdf option_type K T r sigma xs = Inr bs \<and>
              length bs = length xs \<and>
              (\<forall>i < length xs.
                 greeks_at cdf option_type (snd (xs ! i)) K (max (T - fst (xs ! i)) 0) r sigma
                   = Inr (bs ! i))"
proof (induction xs)
  case Nil
  then show ?case by simp
next
  case (Cons p xs)
  obtain t s where p: "p = (t, s)" by (cases p)
  have "0 < s" using Cons.prems p by simp
  then obtain b where b: "greeks_at cdf option_type s K (max (T - t) 0) r sigma = Inr b"
    using greeks_at_valid assms by blast
  obtain bs where bs: "greeks_loop cdf option_type K T r sigma xs = Inr bs"
      "length bs = length xs"
      "\<forall>i < length xs.
         greeks_at cdf option_type (snd (xs ! i)) K (max (T - fst (xs ! i)) 0) r sigma
           = Inr (bs ! i)"
    using Cons.IH Cons.prems by auto
  have "greeks_loop cdf option_type K T r sigma (p # xs) = Inr (b # bs)"
    by (simp add: p b bs(1) bind_err_def)
  moreover have "\<forall>i < length (p # xs).
      greeks_at cdf option_type (snd ((p # xs) ! i)) K (max (T - fst ((p # xs) ! i)) 0) r sigma
        = Inr ((b # bs) ! i)"
  proof (intro allI impI)
    fix i assume "i < length (p # xs)"
    then show "greeks_at cdf option_type (snd ((p # xs) ! i)) K
        (max (T - fst ((p # xs) ! i)) 0) r sigma = Inr ((b # bs) ! i)"
      using bs(3) b p by (cases i) simp_all
  qed
  ultimately show ?case using bs(2) by auto
qed

lemma linspace_steps:
  assumes "1 \<le> steps"
  shows "\<exists>tms. linspace 0 T (steps + 1) = Inr tms \<and> length tms = nat steps + 1 \<and>
           (\<forall>i \<le> nat steps. tms ! i = real i * (T / real_of_int steps))"
proof -
  let ?f = "\<lambda>i. if steps + 1 > 1 \<and> int i = steps + 1 - 1 then T
                 else 0 + real i * ((T - 0) / real_of_int (steps + 1 - 1))"
  let ?tms = "map ?f [0 ..< nat (steps + 1)]"
  have n: "nat (steps + 1) = nat steps + 1" using assms by simp
  have "linspace 0 T (steps + 1) = Inr ?tms"
    using assms by (simp add: linspace_def)
  moreover have "length ?tms = nat steps + 1" using n by simp
  moreover have "\<forall>i \<le> nat steps. ?tms ! i = real i * (T / real_of_int steps)"
  proof (intro allI impI)
    fix i assume i: "i \<le> nat steps"
    then have "i < nat (steps + 1)" using n by simp
    then have "?tms ! i = ?f i" by simp
    also have "\<dots> = real i * (T / real_of_int steps)"
    proof (cases "int i = steps")
      case True
      then have "steps = int i" by simp
      moreover have "0 < i" using \<open>steps = int i\<close> assms by simp
      ultimately show ?thesis by simp
    next
      case False
      then show ?thesis by simp
    qed
    finally show "?tms ! i = real i * (T / real_of_int steps)" .
  qed
  ultimately show ?thesis by blast
qed

text \<open>
  C7. For \<open>S0 > 0\<close>, \<open>K > 0\<close>, \<open>T \<ge> 0\<close>, \<open>sigma > 0\<close>, a valid option type, a seed
  that is absent or in range, and \<open>steps \<ge> 1\<close>, \<open>simulate_path\<close> returns eight sequences
  of length \<open>steps + 1\<close>. Time \<open>i\<close> is \<open>i * (T / steps)\<close>, the first time is 0 and the
  last is \<open>T\<close>; the first spot is \<open>S0\<close>; at every index the price and the five Greeks
  are the values of the Core operations at \<open>(S[i], K, max (T - t_i) 0, r, sigma)\<close>. The
  remaining time of the last point is 0, so its price is the intrinsic payoff and its
  gamma, vega, theta and rho are 0.
\<close>

lemma simulate_path_run:
  assumes "0 < S0" "0 < K" "0 \<le> T" "0 < sigma" "1 \<le> steps"
    and ot: "lower option_type = ''call'' \<or> lower option_type = ''put''"
    and seed: "seed = None \<or> (\<exists>s. seed = Some s \<and> 0 \<le> s \<and> s < 2 ^ 32)"
  obtains tms path bs g2 where
    "simulate_path randn seed_fn cdf S0 K T r sigma option_type steps seed g
       = (Inr \<lparr>times_arr = tms, S_arr = S0 # path,
               price_arr = map b_price bs, delta_arr = map b_delta bs,
               gamma_arr = map b_gamma bs, vega_arr = map b_vega bs,
               theta_arr = map b_theta bs, rho_arr = map b_rho bs\<rparr>, g2)"
    "length tms = nat steps + 1"
    "\<forall>i \<le> nat steps. tms ! i = real i * (T / real_of_int steps)"
    "length path = nat steps" "length bs = nat steps + 1"
    "\<forall>i \<le> nat steps.
       greeks_at cdf option_type ((S0 # path) ! i) K (max (T - tms ! i) 0) r sigma = Inr (bs ! i)"
proof -
  let ?n = "nat steps"
  obtain g1 where g1: "seed_rng seed_fn seed g = Inr g1"
    using seed by (auto simp add: seed_rng_def)
  let ?dt = "T / real_of_int steps"
  have dt: "py_div T (real_of_int steps) = Inr ?dt"
    using \<open>1 \<le> steps\<close> by (simp add: py_div_def)
  have dt0: "\<not> ?dt < 0" using \<open>0 \<le> T\<close> \<open>1 \<le> steps\<close> by (simp add: not_less)
  obtain tms where tms: "linspace 0 T (steps + 1) = Inr tms" "length tms = ?n + 1"
      "\<forall>i \<le> ?n. tms ! i = real i * ?dt"
    using linspace_steps [OF \<open>1 \<le> steps\<close>] by blast
  obtain path g2 where sim: "simulate_S randn r sigma ?dt ?n S0 g1 = (path, g2)"
    by (cases "simulate_S randn r sigma ?dt ?n S0 g1")
  have plen: "length path = ?n"
    using simulate_S_length [of randn r sigma ?dt ?n S0 g1] sim by simp
  have ppos: "\<forall>x \<in> set path. 0 < x"
    using simulate_S_pos [OF \<open>0 < S0\<close>, of _ randn r sigma ?dt ?n g1] sim by simp
  let ?S = "S0 # path"
  let ?xs = "zip tms ?S"
  have xlen: "length ?xs = ?n + 1" using tms(2) plen by simp
  have "\<forall>p \<in> set ?xs. 0 < snd p"
    using ppos \<open>0 < S0\<close> by (auto dest!: set_zip_rightD)
  then obtain bs where bs: "greeks_loop cdf option_type K T r sigma ?xs = Inr bs"
      "length bs = length ?xs"
      "\<forall>i < length ?xs.
         greeks_at cdf option_type (snd (?xs ! i)) K (max (T - fst (?xs ! i)) 0) r sigma
           = Inr (bs ! i)"
    using greeks_loop_valid [OF \<open>0 < K\<close> \<open>0 < sigma\<close> ot] by blast
  let ?res = "\<lparr>times_arr = tms, S_arr = ?S,
                price_arr = map b_price bs, delta_arr = map b_delta bs,
                gamma_arr = map b_gamma bs, vega_arr = map b_vega bs,
                theta_arr = map b_theta bs, rho_arr = map b_rho bs\<rparr>"
  have run: "simulate_path randn seed_fn cdf S0 K T r sigma option_type steps seed g
      = (Inr ?res, g2)"
    using \<open>1 \<le> steps\<close> \<open>0 < K\<close> \<open>0 < sigma\<close> dt0
    by (simp add: simulate_path_def g1 dt tms(1) sim bs(1))
  have blen: "length bs = ?n + 1" using bs(2) xlen by simp
  have at: "\<forall>i \<le> ?n. greeks_at cdf option_type (?S ! i) K (max (T - tms ! i) 0) r sigma
      = Inr (bs ! i)"
  proof (intro allI impI)
    fix i assume "i \<le> ?n"
    then have i: "i < length ?xs" using xlen by simp
    then have "?xs ! i = (tms ! i, ?S ! i)" by simp
    then show "greeks_at cdf option_type (?S ! i) K (max (T - tms ! i) 0) r sigma = Inr (bs ! i)"
      using bs(3) i by (metis fst_conv snd_conv)
  qed
  show ?thesis
    using that [OF run tms(2) tms(3) plen blen at] .
qed

theorem simulate_path_shape:
  assumes "0 < S0" "0 < K" "0 \<le> T" "0 < sigma" "1 \<le> steps"
    and ot: "lower option_type = ''call'' \<or> lower option_type = ''put''"
    and seed: "seed = None \<or> (\<exists>s. seed = Some s \<and> 0 \<le> s \<and> s < 2 ^ 32)"
  shows "\<exists>res g'.
      simulate_path randn seed_fn cdf S0 K T r sigma option_type steps seed g = (Inr res, g') \<and>
      length (times_arr res) = nat steps + 1 \<and> length (S_arr res) = nat steps + 1 \<and>
      length (price_arr res) = nat steps + 1 \<and> length (delta_arr res) = nat steps + 1 \<and>
      length (gamma_arr res) = nat steps + 1 \<and> length (vega_arr res) = nat steps + 1 \<and>
      length (theta_arr res) = nat steps + 1 \<and> length (rho_arr res) = nat steps + 1 \<and>
      (\<forall>i \<le> nat steps. times_arr res ! i = real i * (T / real_of_int steps)) \<and>
      times_arr res ! 0 = 0 \<and> times_arr res ! nat steps = T \<and>
      S_arr res ! 0 = S0 \<and>
      (\<forall>i \<le> nat steps.
         option_price cdf option_type (S_arr res ! i) K (max (T - times_arr res ! i) 0) r sigma
           = Inr (price_arr res ! i) \<and>
         delta cdf option_type (S_arr res ! i) K (max (T - times_arr res ! i) 0) r sigma
           = Inr (delta_arr res ! i) \<and>
         gamma (S_arr res ! i) K (max (T - times_arr res ! i) 0) r sigma
           = Inr (gamma_arr res ! i) \<and>
         vega (S_arr res ! i) K (max (T - times_arr res ! i) 0) r sigma
           = Inr (vega_arr res ! i) \<and>
         theta cdf option_type (S_arr res ! i) K (max (T - times_arr res ! i) 0) r sigma
           = Inr (theta_arr res ! i) \<and>
         rho cdf option_type (S_arr res ! i) K (max (T - times_arr res ! i) 0) r sigma
           = Inr (rho_arr res ! i)) \<and>
      max (T - times_arr res ! nat steps) 0 = 0 \<and>
      price_arr res ! nat steps =
        (if lower option_type = ''call'' then max (S_arr res ! nat steps - K) 0
         else max (K - S_arr res ! nat steps) 0) \<and>
      gamma_arr res ! nat steps = 0 \<and> vega_arr res ! nat steps = 0 \<and>
      theta_arr res ! nat steps = 0 \<and> rho_arr res ! nat steps = 0"
proof -
  let ?n = "nat steps"
  obtain tms path bs g2 where
    run: "simulate_path randn seed_fn cdf S0 K T r sigma option_type steps seed g
       = (Inr \<lparr>times_arr = tms, S_arr = S0 # path,
               price_arr = map b_price bs, delta_arr = map b_delta bs,
               gamma_arr = map b_gamma bs, vega_arr = map b_vega bs,
               theta_arr = map b_theta bs, rho_arr = map b_rho bs\<rparr>, g2)"
    and tms: "length tms = ?n + 1" "\<forall>i \<le> ?n. tms ! i = real i * (T / real_of_int steps)"
    and plen: "length path = ?n" and blen: "length bs = ?n + 1"
    and at: "\<forall>i \<le> ?n.
       greeks_at cdf option_type ((S0 # path) ! i) K (max (T - tms ! i) 0) r sigma = Inr (bs ! i)"
    using simulate_path_run [OF assms, of randn seed_fn cdf r g] by blast
  let ?S = "S0 # path"
  let ?res = "\<lparr>times_arr = tms, S_arr = ?S,
                price_arr = map b_price bs, delta_arr = map b_delta bs,
                gamma_arr = map b_gamma bs, vega_arr = map b_vega bs,
                theta_arr = map b_theta bs, rho_arr = map b_rho bs\<rparr>"
  have ops: "\<forall>i \<le> ?n.
         option_price cdf option_type (?S ! i) K (max (T - tms ! i) 0) r sigma
           = Inr (map b_price bs ! i) \<and>
         delta cdf option_type (?S ! i) K (max (T - tms ! i) 0) r sigma
           = Inr (map b_delta bs ! i) \<and>
         gamma (?S ! i) K (max (T - tms ! i) 0) r sigma = Inr (map b_gamma bs ! i) \<and>
         vega (?S ! i) K (max (T - tms ! i) 0) r sigma = Inr (map b_vega bs ! i) \<and>
         theta cdf option_type (?S ! i) K (max (T - tms ! i) 0) r sigma
           = Inr (map b_theta bs ! i) \<and>
         rho cdf option_type (?S ! i) K (max (T - tms ! i) 0) r sigma
           = Inr (map b_rho bs ! i)"
  proof (intro allI impI)
    fix i assume i: "i \<le> ?n"
    then have "i < length bs" using blen by simp
    then show "option_price cdf option_type (?S ! i) K (max (T - tms ! i) 0) r sigma
           = Inr (map b_price bs ! i) \<and>
         delta cdf option_type (?S ! i) K (max (T - tms ! i) 0) r sigma
           = Inr (map b_delta bs ! i) \<and>
         gamma (?S ! i) K (max (T - tms ! i) 0) r sigma = Inr (map b_gamma bs ! i) \<and>
         vega (?S ! i) K (max (T - tms ! i) 0) r sigma = Inr (map b_vega bs ! i) \<and>
         theta cdf option_type (?S ! i) K (max (T - tms ! i) 0) r sigma
           = Inr (map b_theta bs ! i) \<and>
         rho cdf option_type (?S ! i) K (max (T - tms ! i) 0) r sigma
           = Inr (map b_rho bs ! i)"
      using greeks_at_Inr [of cdf option_type "?S ! i" K "max (T - tms ! i) 0" r sigma "bs ! i"]
        at i by simp
  qed
  have t0: "tms ! 0 = 0" using tms(2) by simp
  have "real ?n = real_of_int steps" using \<open>1 \<le> steps\<close> by simp
  then have tn: "tms ! ?n = T" using tms(2) \<open>1 \<le> steps\<close> by simp
  then have rem: "max (T - tms ! ?n) 0 = 0" by simp
  have last: "option_price cdf option_type (?S ! ?n) K 0 r sigma = Inr (map b_price bs ! ?n)"
      "gamma (?S ! ?n) K 0 r sigma = Inr (map b_gamma bs ! ?n)"
      "vega (?S ! ?n) K 0 r sigma = Inr (map b_vega bs ! ?n)"
      "theta cdf option_type (?S ! ?n) K 0 r sigma = Inr (map b_theta bs ! ?n)"
      "rho cdf option_type (?S ! ?n) K 0 r sigma = Inr (map b_rho bs ! ?n)"
    using ops rem by (metis order_refl)+
  have lastv: "map b_price bs ! ?n =
        (if lower option_type = ''call'' then max (?S ! ?n - K) 0 else max (K - ?S ! ?n) 0)"
      "map b_gamma bs ! ?n = 0" "map b_vega bs ! ?n = 0"
      "map b_theta bs ! ?n = 0" "map b_rho bs ! ?n = 0"
    using last ot
    by (auto simp add: option_price_def gamma_def vega_def theta_def rho_def)
  show ?thesis
    apply (rule exI [of _ ?res], rule exI [of _ g2])
    apply (intro conjI)
    using run apply simp
    using tms(1) plen blen apply simp_all[8]
    using tms(2) apply simp
    using t0 apply simp
    using tn apply simp
    apply simp
    using ops apply simp
    using rem apply simp
    using lastv apply simp_all
    done
qed

theorem simulate_path_shape_witness:
  "(0::real) < 100 \<and> (0::real) \<le> 1 \<and> (0::real) < 0.2 \<and> (1::int) \<le> 20 \<and>
   lower ''call'' = ''call'' \<and> (0::int) \<le> 42 \<and> (42::int) < 2 ^ 32 \<and>
   (\<exists>res g'.
      simulate_path lcg_randn lcg_seed norm_cdf 100 100 1 0.05 0.2 ''call'' 20 (Some 42) 0
        = (Inr res, g') \<and>
      length (times_arr res) = 21 \<and> length (S_arr res) = 21 \<and>
      length (price_arr res) = 21 \<and> length (rho_arr res) = 21 \<and>
      S_arr res ! 0 = 100 \<and> times_arr res ! 0 = 0 \<and> times_arr res ! 20 = 1 \<and>
      price_arr res ! 20 = max (S_arr res ! 20 - 100) 0)"
proof -
  have "\<exists>res g'.
      simulate_path lcg_randn lcg_seed norm_cdf 100 100 1 0.05 0.2 ''call'' 20 (Some 42) 0
        = (Inr res, g') \<and>
      length (times_arr res) = 21 \<and> length (S_arr res) = 21 \<and>
      length (price_arr res) = 21 \<and> length (rho_arr res) = 21 \<and>
      S_arr res ! 0 = 100 \<and> times_arr res ! 0 = 0 \<and> times_arr res ! 20 = 1 \<and>
      price_arr res ! 20 = max (S_arr res ! 20 - 100) 0"
    using simulate_path_shape [where ?S0.0 = 100 and K = 100 and T = 1 and sigma = "0.2"
        and steps = 20 and option_type = "''call''" and seed = "Some 42"
        and randn = lcg_randn and seed_fn = lcg_seed and cdf = norm_cdf and r = "0.05" and g = 0]
    by (simp add: lower_literals) blast
  then show ?thesis by (simp add: lower_literals)
qed

text \<open>
  C9. With a seed, the result of \<open>simulate_path\<close> does not depend on the state of the
  generator before the call: two runs with the same seed and the same parameters return
  the same times, spots, prices and Greeks, or fail alike.
\<close>

theorem simulate_path_reproducible:
  "fst (simulate_path randn seed_fn cdf S0 K T r sigma option_type steps (Some s) g1) =
   fst (simulate_path randn seed_fn cdf S0 K T r sigma option_type steps (Some s) g2)"
  by (simp add: simulate_path_def seed_rng_def)

theorem simulate_path_reproducible_witness:
  "fst (simulate_path lcg_randn lcg_seed norm_cdf 100 100 1 0.05 0.2 ''call'' 20 (Some 42) 3) =
   fst (simulate_path lcg_randn lcg_seed norm_cdf 100 100 1 0.05 0.2 ''call'' 20 (Some 42) 11)"
  using simulate_path_reproducible [where randn = lcg_randn and seed_fn = lcg_seed
      and cdf = norm_cdf and ?S0.0 = 100 and K = 100 and T = 1 and r = "0.05"
      and sigma = "0.2" and option_type = "''call''" and steps = 20 and s = 42
      and ?g1.0 = 3 and ?g2.0 = 11]
  by simp

text \<open>
  The spots of a returned path are \<open>S0\<close> followed by the draws of the first loop, and
  without a seed the result does depend on the state of the generator.
\<close>

lemma simulate_path_spots:
  assumes "simulate_path randn seed_fn cdf S0 K T r sigma option_type steps seed g = (Inr res, g')"
  shows "\<exists>g1. seed_rng seed_fn seed g = Inr g1 \<and>
           S_arr res = S0 # fst (simulate_S randn r sigma (T / real_of_int steps) (nat steps) S0 g1) \<and>
           g' = snd (simulate_S randn r sigma (T / real_of_int steps) (nat steps) S0 g1)"
  using assms
  by (auto simp add: simulate_path_def py_div_def Let_def
      split: sum.splits if_splits prod.splits)

lemma simulate_path_unseeded_depends_on_state:
  "fst (simulate_path lcg_randn lcg_seed norm_cdf 100 100 1 0.05 0.2 ''call'' 1 None 0) \<noteq>
   fst (simulate_path lcg_randn lcg_seed norm_cdf 100 100 1 0.05 0.2 ''call'' 1 None 1)"
proof -
  have run: "\<exists>res g'. simulate_path lcg_randn lcg_seed norm_cdf 100 100 1 0.05 0.2 ''call'' 1 None g
      = (Inr res, g')" for g :: nat
    by (rule simulate_path_run [where ?S0.0 = 100 and K = 100 and T = 1 and sigma = "0.2"
        and steps = 1 and option_type = "''call''" and seed = None
        and randn = lcg_randn and seed_fn = lcg_seed and cdf = norm_cdf and r = "0.05" and g = g])
      (simp_all add: lower_literals)
  obtain res0 g0 where r0: "simulate_path lcg_randn lcg_seed norm_cdf 100 100 1 0.05 0.2 ''call'' 1 None 0
      = (Inr res0, g0)" using run [of 0] by blast
  obtain res1 g1 where r1: "simulate_path lcg_randn lcg_seed norm_cdf 100 100 1 0.05 0.2 ''call'' 1 None 1
      = (Inr res1, g1)" using run [of 1] by blast
  have s0: "S_arr res0 = [100, 100 * exp (0.03 + 0.2 * (- 2))]"
    using simulate_path_spots [OF r0]
    by (simp add: seed_rng_def lcg_randn_def power2_eq_square)
  have s1: "S_arr res1 = [100, 100 * exp (0.03 + 0.2 * (- 1))]"
    using simulate_path_spots [OF r1]
    by (simp add: seed_rng_def lcg_randn_def power2_eq_square)
  have "S_arr res0 \<noteq> S_arr res1"
    unfolding s0 s1 by simp
  then show ?thesis using r0 r1 by auto
qed

end
